theory Spec2Isabelle
  imports Main
begin

text \<open>
  The download page of the YouTube downloader front end: the request gateway \<^verbatim>\<open>API\<close>
  and the polling \<^verbatim>\<open>ProgressTracker\<close> of \<^verbatim>\<open>api.js\<close>, the URL check of
  \<^verbatim>\<open>ui.js\<close>, and the controller \<^verbatim>\<open>App\<close>. Asynchronous functions are cut at
  their \<^verbatim>\<open>await\<close>: one definition for the part that runs at the call, one for the
  part that runs when the awaited call has settled, and the event loop is a step function
  over the tasks it can run.
\<close>

section \<open>JavaScript values\<close>

text \<open>
  Strings are lists of characters; one \<^typ>\<open>char\<close> stands for one UTF-16 code unit, so
  \<^const>\<open>length\<close> is the \<^verbatim>\<open>.length\<close> of the source.

  A value is \<^verbatim>\<open>undefined\<close>, \<^verbatim>\<open>null\<close>, a boolean, a string, or anything else (a
  number, an array, an object). Of a value of the last kind this code can observe two
  things only, which \<open>Other\<close> keeps: whether it is truthy, and its string conversion
  (\<open>Other True ''404''\<close> for the number 404, \<open>Other False ''0''\<close> for 0,
  \<open>Other True ''[object Object]''\<close> for an object). Strict equality with a string, the
  only comparison the code makes, is false for it.
\<close>

datatype jsval = Undefined | Null | Bool bool | Str string | Other bool string

text \<open>An object literal or a parsed JSON object: its properties in order.\<close>

type_synonym json_obj = "(string \<times> jsval) list"

text \<open>
  What \<^verbatim>\<open>response.json()\<close> resolves to: \<^verbatim>\<open>null\<close>, of which every property access
  throws, or an object. A body that is a JSON string, number, boolean or array has none
  of the properties read by this code and is taken as \<open>JObj []\<close>; the one place where
  the code could tell a falsy such body from an object, the truthiness test of the retry
  button's handler, is modelled for \<^verbatim>\<open>null\<close> and objects only.
\<close>

datatype json = JNull | JObj json_obj

text \<open>A thrown \<^verbatim>\<open>Error\<close> (of any subclass): only its \<^verbatim>\<open>message\<close> is ever read.\<close>

datatype js_error = Error (message: string)

fun truthy :: "jsval \<Rightarrow> bool" where
  "truthy Undefined = False"
| "truthy Null = False"
| "truthy (Bool b) = b"
| "truthy (Str s) = (s \<noteq> [])"
| "truthy (Other t s) = t"

text \<open>\<^verbatim>\<open>a || b\<close>\<close>

definition js_or :: "jsval \<Rightarrow> jsval \<Rightarrow> jsval" where
  "js_or a b = (if truthy a then a else b)"

text \<open>String conversion, as in a template literal.\<close>

fun to_string :: "jsval \<Rightarrow> string" where
  "to_string Undefined = ''undefined''"
| "to_string Null = ''null''"
| "to_string (Bool b) = (if b then ''true'' else ''false'')"
| "to_string (Str s) = s"
| "to_string (Other t s) = s"

text \<open>\<^verbatim>\<open>obj.k\<close> on an object: a missing property reads as \<^verbatim>\<open>undefined\<close>.\<close>

definition getprop :: "json_obj \<Rightarrow> string \<Rightarrow> jsval" where
  "getprop ob k = (case map_of ob k of None \<Rightarrow> Undefined | Some v \<Rightarrow> v)"

text \<open>
  \<^verbatim>\<open>new Error(v)\<close>: the message is the string conversion of \<open>v\<close>; an undefined
  argument leaves it empty.
\<close>

fun new_Error :: "jsval \<Rightarrow> js_error" where
  "new_Error Undefined = Error []"
| "new_Error v = Error (to_string v)"

text \<open>
  Reading a property of \<^verbatim>\<open>null\<close> throws a \<^verbatim>\<open>TypeError\<close> whose message is the
  engine's and names the property. The engine is a parameter of every function that can
  read a property of a parsed body: \<open>nullError p\<close> is the error thrown for reading the
  property \<open>p\<close> of \<^verbatim>\<open>null\<close>.
\<close>

type_synonym null_error = "string \<Rightarrow> js_error"

text \<open>The messages of one engine, V8, for the examples.\<close>

definition V8_TypeError :: null_error where
  "V8_TypeError p =
     Error (''Cannot read properties of null (reading '' @ [CHR 0x27] @ p @ [CHR 0x27] @ '')'')"

text \<open>
  \<^verbatim>\<open>JSON.stringify(data)\<close> on a flat object, as the object the text denotes: a property
  whose value is \<^verbatim>\<open>undefined\<close> is left out, a \<^verbatim>\<open>null\<close> one is written.
\<close>

definition JSON_stringify :: "json_obj \<Rightarrow> json_obj" where
  "JSON_stringify data = filter (\<lambda>kv. snd kv \<noteq> Undefined) data"


section \<open>config.js\<close>

definition ENDPOINTS_INFO :: string where "ENDPOINTS_INFO = ''/api/info''"
definition ENDPOINTS_DOWNLOAD :: string where "ENDPOINTS_DOWNLOAD = ''/api/download''"
definition ENDPOINTS_PROGRESS :: string where "ENDPOINTS_PROGRESS = ''/api/progress''"
definition ENDPOINTS_DOWNLOADS :: string where "ENDPOINTS_DOWNLOADS = ''/api/downloads''"
definition MAX_URL_LENGTH :: nat where "MAX_URL_LENGTH = 2048"
definition DOWNLOAD_TYPES_VIDEO :: string where "DOWNLOAD_TYPES_VIDEO = ''video''"
definition DOWNLOAD_TYPES_AUDIO :: string where "DOWNLOAD_TYPES_AUDIO = ''audio''"
definition DEFAULT_VIDEO_QUALITY :: string where "DEFAULT_VIDEO_QUALITY = ''best''"
definition DEFAULT_AUDIO_FORMAT :: string where "DEFAULT_AUDIO_FORMAT = ''mp3''"


section \<open>api.js: the API object\<close>

text \<open>
  The argument of \<^verbatim>\<open>fetch\<close>. \<open>API_BASE_URL\<close> differs between the two configuration
  files, so it is the parameter \<open>base\<close> of every function that builds a request.
\<close>

record request =
  req_url :: string
  req_method :: string
  req_headers :: "(string \<times> string) list"
  req_body :: "json_obj option"

text \<open>
  What the network answers to one \<^verbatim>\<open>fetch\<close>: the promise rejects, or it resolves to a
  response with its \<^verbatim>\<open>ok\<close> flag and a body that \<^verbatim>\<open>response.json()\<close> either fails
  to read (throwing the parser's error) or parses.
\<close>

datatype body = Unparseable js_error | Parsed json

datatype fetched = Rejected js_error | Responded bool body

definition get_request :: "string \<Rightarrow> string \<Rightarrow> request" where
  "get_request base endpoint =
     \<lparr>req_url = base @ endpoint, req_method = ''GET'', req_headers = [], req_body = None\<rparr>"

text \<open>
  \<^verbatim>\<open>API.get\<close> after its \<^verbatim>\<open>fetch\<close> has settled with \<open>f\<close>. The \<^verbatim>\<open>catch\<close> block logs
  and rethrows whatever was thrown inside \<^verbatim>\<open>try\<close>, so each throw is an \<open>Inl\<close>.
\<close>

definition API_get :: "null_error \<Rightarrow> fetched \<Rightarrow> js_error + json" where
  "API_get nullError f =
     (case f of
        Rejected e \<Rightarrow> Inl e
      | Responded ok b \<Rightarrow>
          if \<not> ok then
            (case b of
               Unparseable e \<Rightarrow> Inl e
             | Parsed JNull \<Rightarrow> Inl (nullError ''error'')
             | Parsed (JObj err) \<Rightarrow>
                 Inl (new_Error (js_or (getprop err ''error'') (Str ''Request failed''))))
          else
            (case b of
               Unparseable e \<Rightarrow> Inl e
             | Parsed j \<Rightarrow> Inr j))"

definition post_request :: "string \<Rightarrow> string \<Rightarrow> json_obj \<Rightarrow> request" where
  "post_request base endpoint data =
     \<lparr>req_url = base @ endpoint, req_method = ''POST'',
      req_headers = [(''Content-Type'', ''application/json'')],
      req_body = Some (JSON_stringify data)\<rparr>"

definition API_post :: "null_error \<Rightarrow> fetched \<Rightarrow> js_error + json" where
  "API_post nullError f =
     (case f of
        Rejected e \<Rightarrow> Inl e
      | Responded ok b \<Rightarrow>
          if \<not> ok then
            (case b of
               Unparseable e \<Rightarrow> Inl e
             | Parsed JNull \<Rightarrow> Inl (nullError ''error'')
             | Parsed (JObj err) \<Rightarrow>
                 Inl (new_Error (js_or (getprop err ''error'') (Str ''Request failed''))))
          else
            (case b of
               Unparseable e \<Rightarrow> Inl e
             | Parsed j \<Rightarrow> Inr j))"

text \<open>\<^verbatim>\<open>API.getVideoInfo(url)\<close>: the request it posts.\<close>

definition getVideoInfo_request :: "string \<Rightarrow> string \<Rightarrow> request" where
  "getVideoInfo_request base url = post_request base ENDPOINTS_INFO [(''url'', Str url)]"

text \<open>The object literal \<^verbatim>\<open>data\<close> of \<^verbatim>\<open>API.startDownload(url, type, quality)\<close>.\<close>

definition startDownload_data :: "string \<Rightarrow> string \<Rightarrow> jsval \<Rightarrow> json_obj" where
  "startDownload_data url type quality =
     [(''url'', Str url),
      (''type'', Str type),
      (''quality'', if type = DOWNLOAD_TYPES_VIDEO then quality else Undefined),
      (''audio_format'',
         if type = DOWNLOAD_TYPES_AUDIO then Str DEFAULT_AUDIO_FORMAT else Undefined)]"

definition startDownload_request :: "string \<Rightarrow> string \<Rightarrow> string \<Rightarrow> jsval \<Rightarrow> request" where
  "startDownload_request base url type quality =
     post_request base ENDPOINTS_DOWNLOAD (startDownload_data url type quality)"

definition getProgress_request :: "string \<Rightarrow> jsval \<Rightarrow> request" where
  "getProgress_request base downloadId =
     get_request base (ENDPOINTS_PROGRESS @ ''/'' @ to_string downloadId)"

definition getDownloads_request :: "string \<Rightarrow> request" where
  "getDownloads_request base = get_request base ENDPOINTS_DOWNLOADS"


section \<open>ui.js: URL validation\<close>

text \<open>
  \<^verbatim>\<open>new URL(url)\<close> is the platform's parser, a parameter here: it throws (\<open>Inl\<close>) or
  returns the parsed URL.
\<close>

type_synonym url_parser = "string \<Rightarrow> js_error + string"

text \<open>\<^verbatim>\<open>UI.isValidUrl\<close>; a result \<open>Inl e\<close> would be an exception leaving the function.\<close>

definition isValidUrl :: "url_parser \<Rightarrow> string \<Rightarrow> js_error + bool" where
  "isValidUrl new_URL url =
     (case new_URL url of
        Inl e \<Rightarrow> Inr False
      | Inr u \<Rightarrow> Inr (length url \<le> MAX_URL_LENGTH))"


section \<open>api.js: ProgressTracker\<close>

text \<open>
  The three callbacks given to the constructor are opaque to the tracker; a call of one is
  recorded with its argument. They are taken to return normally and not to call back into
  the tracker, as the closures built by \<^verbatim>\<open>App.trackProgress\<close> do.
\<close>

datatype callback = OnUpdate json_obj | OnComplete json_obj | OnError jsval

text \<open>
  The fields of a tracker. \<open>interval\<close> is \<^verbatim>\<open>null\<close> (\<open>None\<close>) or the handle
  returned by \<^verbatim>\<open>setInterval\<close>, a number.
\<close>

record tracker =
  downloadId :: jsval
  interval :: "nat option"
  isTracking :: bool

text \<open>
  What a call on a tracker asks of the runtime, in program order. \<open>Invoke c t\<close> is a call of the
  callback \<open>c\<close> made when the fields of the tracker were \<open>t\<close>.
\<close>

datatype action =
    SetInterval nat
  | ClearInterval nat
  | GetProgress jsval
  | Invoke callback tracker

definition new_ProgressTracker :: "jsval \<Rightarrow> tracker" where
  "new_ProgressTracker did = \<lparr>downloadId = did, interval = None, isTracking = False\<rparr>"

text \<open>\<^verbatim>\<open>checkProgress\<close> up to its \<^verbatim>\<open>await\<close>: the status query is sent.\<close>

definition checkProgress :: "tracker \<Rightarrow> action list" where
  "checkProgress t = [GetProgress (downloadId t)]"

text \<open>\<^verbatim>\<open>start()\<close>; \<open>h\<close> is the handle that \<^verbatim>\<open>setInterval\<close> returns.\<close>

definition start :: "nat \<Rightarrow> tracker \<Rightarrow> tracker \<times> action list" where
  "start h t =
     (if isTracking t then (t, [])
      else (t\<lparr>isTracking := True, interval := Some h\<rparr>, checkProgress t @ [SetInterval h]))"

text \<open>\<^verbatim>\<open>stop()\<close>; the test \<^verbatim>\<open>if (this.interval)\<close> is false for \<^verbatim>\<open>null\<close> and for 0.\<close>

definition stop :: "tracker \<Rightarrow> tracker \<times> action list" where
  "stop t =
     (case interval t of
        None \<Rightarrow> (t\<lparr>isTracking := False\<rparr>, [])
      | Some h \<Rightarrow>
          if h \<noteq> 0 then (t\<lparr>interval := None, isTracking := False\<rparr>, [ClearInterval h])
          else (t\<lparr>isTracking := False\<rparr>, []))"

text \<open>
  \<^verbatim>\<open>checkProgress\<close> from its \<^verbatim>\<open>await\<close> on, when the \<^verbatim>\<open>fetch\<close> of
  \<^verbatim>\<open>API.getProgress\<close> has settled with \<open>f\<close>. Reading \<^verbatim>\<open>progress.status\<close> of a
  \<^verbatim>\<open>null\<close> report throws inside \<^verbatim>\<open>try\<close> and lands in the \<^verbatim>\<open>catch\<close> block.
\<close>

definition checkProgress_settled ::
  "null_error \<Rightarrow> fetched \<Rightarrow> tracker \<Rightarrow> tracker \<times> action list" where
  "checkProgress_settled nullError f t =
     (case API_get nullError f of
        Inr (JObj progress) \<Rightarrow>
          if getprop progress ''status'' = Str ''completed'' then
            (let (t', acts) = stop t in (t', acts @ [Invoke (OnComplete progress) t']))
          else if getprop progress ''status'' = Str ''error'' then
            (let (t', acts) = stop t
             in (t', acts @
                  [Invoke (OnError (js_or (getprop progress ''error'') (Str ''Download failed''))) t']))
          else (t, [Invoke (OnUpdate progress) t])
      | Inr JNull \<Rightarrow>
          (let (t', acts) = stop t
           in (t', acts @ [Invoke (OnError (Str (message (nullError ''status'')))) t']))
      | Inl error \<Rightarrow>
          (let (t', acts) = stop t
           in (t', acts @ [Invoke (OnError (Str (message error))) t'])))"


section \<open>One tracker and its runtime\<close>

text \<open>
  The event loop around one tracker: the interval timers that are live, the status
  queries that are in flight (numbered in the order they were sent), and everything the
  tracker has done so far, oldest first.
\<close>

record world =
  trk :: tracker
  timers :: "nat list"
  next_timer :: nat
  polls :: "nat list"
  next_poll :: nat
  history :: "action list"

fun perform :: "action \<Rightarrow> world \<Rightarrow> world" where
  "perform (SetInterval h) w =
     w\<lparr>timers := timers w @ [h], next_timer := Suc (next_timer w),
       history := history w @ [SetInterval h]\<rparr>"
| "perform (ClearInterval h) w =
     w\<lparr>timers := removeAll h (timers w), history := history w @ [ClearInterval h]\<rparr>"
| "perform (GetProgress did) w =
     w\<lparr>polls := polls w @ [next_poll w], next_poll := Suc (next_poll w),
       history := history w @ [GetProgress did]\<rparr>"
| "perform (Invoke c t) w = w\<lparr>history := history w @ [Invoke c t]\<rparr>"

text \<open>
  An event is one task of the event loop: a call of \<^verbatim>\<open>start()\<close> or \<^verbatim>\<open>stop()\<close> by the
  owner, a firing of an interval timer, or the settling of a status query. A timer that
  was cleared does not fire and a query settles once, so such events change nothing.
\<close>

datatype event = CallStart | CallStop | TimerFires nat | PollSettles nat fetched

fun step :: "null_error \<Rightarrow> event \<Rightarrow> world \<Rightarrow> world" where
  "step nullError CallStart w =
     (let (t', acts) = start (next_timer w) (trk w) in fold perform acts (w\<lparr>trk := t'\<rparr>))"
| "step nullError CallStop w =
     (let (t', acts) = stop (trk w) in fold perform acts (w\<lparr>trk := t'\<rparr>))"
| "step nullError (TimerFires h) w =
     (if h \<in> set (timers w) then fold perform (checkProgress (trk w)) w else w)"
| "step nullError (PollSettles p f) w =
     (if p \<in> set (polls w) then
        (let (t', acts) = checkProgress_settled nullError f (trk w)
         in fold perform acts (w\<lparr>trk := t', polls := removeAll p (polls w)\<rparr>))
      else w)"

definition run :: "null_error \<Rightarrow> event list \<Rightarrow> world \<Rightarrow> world" where
  "run nullError es w = fold (step nullError) es w"

text \<open>The world right after \<^verbatim>\<open>new ProgressTracker(did, ...)\<close>; timer handles start at 1.\<close>

definition boot :: "jsval \<Rightarrow> world" where
  "boot did =
     \<lparr>trk = new_ProgressTracker did, timers = [], next_timer = 1, polls = [], next_poll = 0,
      history = []\<rparr>"

text \<open>The callbacks called in a history, and those among them that end a download.\<close>

fun invoked :: "action list \<Rightarrow> callback list" where
  "invoked [] = []"
| "invoked (Invoke c t # acts) = c # invoked acts"
| "invoked (a # acts) = invoked acts"

fun is_terminal :: "callback \<Rightarrow> bool" where
  "is_terminal (OnUpdate r) = False"
| "is_terminal (OnComplete r) = True"
| "is_terminal (OnError e) = True"

text \<open>The number of status queries sent in a history.\<close>

definition sent :: "action list \<Rightarrow> nat" where
  "sent acts = length (filter (\<lambda>a. case a of GetProgress d \<Rightarrow> True | _ \<Rightarrow> False) acts)"

text \<open>
  A settled query is terminal when \<^verbatim>\<open>checkProgress\<close> takes one of its three stopping
  branches: status \<open>completed\<close>, status \<open>error\<close>, or the \<^verbatim>\<open>catch\<close> block.
\<close>

definition terminal_outcome :: "null_error \<Rightarrow> fetched \<Rightarrow> bool" where
  "terminal_outcome nullError f =
     (case API_get nullError f of
        Inr (JObj progress) \<Rightarrow>
          getprop progress ''status'' = Str ''completed''
          \<or> getprop progress ''status'' = Str ''error''
      | Inr JNull \<Rightarrow> True
      | Inl error \<Rightarrow> True)"

text \<open>
  What holds of the world between any two events: the tracker's fields agree with the
  runtime's timers, and the queries in flight are distinct and already numbered.
\<close>

definition consistent :: "world \<Rightarrow> bool" where
  "consistent w =
     (next_timer w \<noteq> 0
      \<and> (case interval (trk w) of
           None \<Rightarrow> timers w = [] \<and> \<not> isTracking (trk w)
         | Some h \<Rightarrow> timers w = [h] \<and> h \<noteq> 0 \<and> isTracking (trk w))
      \<and> distinct (polls w)
      \<and> list_all (\<lambda>p. p < next_poll w) (polls w))"


section \<open>ui.js: the sections of the download tab\<close>

text \<open>
  Of the page, the model keeps what the controller's handlers read or switch: the text of
  the URL field, whether the video information block is visible, which of the progress,
  success and error sections is visible (\<^verbatim>\<open>hideAllSections\<close> hides all three and each
  \<^verbatim>\<open>show...\<close> function shows one after hiding all, so at most one is), the text of the
  error section, the loading overlay, and the toasts shown so far. A toast is kept as its
  text without the pictograph that some of them start with.
\<close>

datatype ui_section = ProgressSection | SuccessSection | ErrorSection

record ui =
  urlInput :: string
  videoInfoShown :: bool
  shown :: "ui_section option"
  errorMessage :: string
  loading :: bool
  toasts :: "string list"

definition showToast :: "string \<Rightarrow> ui \<Rightarrow> ui" where
  "showToast msg v = v\<lparr>toasts := toasts v @ [msg]\<rparr>"

definition setLoading :: "bool \<Rightarrow> ui \<Rightarrow> ui" where
  "setLoading isLoading v = v\<lparr>loading := isLoading\<rparr>"

definition hideAllSections :: "ui \<Rightarrow> ui" where
  "hideAllSections v = v\<lparr>shown := None\<rparr>"

definition showVideoInfo :: "ui \<Rightarrow> ui" where
  "showVideoInfo v = v\<lparr>videoInfoShown := True\<rparr>"

definition hideVideoInfo :: "ui \<Rightarrow> ui" where
  "hideVideoInfo v = v\<lparr>videoInfoShown := False\<rparr>"

definition showProgress :: "ui \<Rightarrow> ui" where
  "showProgress v = (hideAllSections v)\<lparr>shown := Some ProgressSection\<rparr>"

definition showSuccess :: "ui \<Rightarrow> ui" where
  "showSuccess v = (hideAllSections v)\<lparr>shown := Some SuccessSection\<rparr>"

definition showError :: "string \<Rightarrow> ui \<Rightarrow> ui" where
  "showError errorMsg v = (hideAllSections v)\<lparr>errorMessage := errorMsg, shown := Some ErrorSection\<rparr>"

definition resetDownloadUI :: "ui \<Rightarrow> ui" where
  "resetDownloadUI v = hideVideoInfo ((hideAllSections v)\<lparr>urlInput := []\<rparr>)"

text \<open>\<^verbatim>\<open>String.prototype.trim\<close>, on the white space that fits in one character here.\<close>

definition is_ws :: "char \<Rightarrow> bool" where
  "is_ws c = (of_char c \<in> set [9, 10, 11, 12, 13, 32, 160 :: nat])"

definition trim :: "string \<Rightarrow> string" where
  "trim s = rev (dropWhile is_ws (rev (dropWhile is_ws s)))"


section \<open>The controller App\<close>

text \<open>\<^verbatim>\<open>App.state\<close>; \<open>progressTracker\<close> holds the address of a tracker object.\<close>

record app_state =
  currentUrl :: string
  currentDownloadType :: string
  currentQuality :: string
  currentDownloadId :: jsval
  progressTracker :: "nat option"
  videoInfo :: json

text \<open>
  The page as the event loop sees it: the controller's state, the view, the tracker
  objects ever built (an address is an index of \<open>heap\<close>), the interval timers that are
  live and the status queries in flight, each with the address of the tracker whose
  \<^verbatim>\<open>checkProgress\<close> they run, the calls of \<^verbatim>\<open>API.getVideoInfo\<close> and of
  \<^verbatim>\<open>API.startDownload\<close> that have not settled, and every request handed to
  \<^verbatim>\<open>fetch\<close> so far. The history and statistics tabs, the health check and the requests
  that \<^verbatim>\<open>App.init\<close> sends for them are left out, as is the settling of the history
  request that the completion callback sends.
\<close>

record app =
  state :: app_state
  view :: ui
  heap :: "tracker list"
  intervals :: "(nat \<times> nat) list"
  next_handle :: nat
  queries :: "(nat \<times> nat) list"
  next_query :: nat
  infos :: "nat list"
  dispatches :: "nat list"
  next_call :: nat
  requests :: "request list"

definition app_init :: app where
  "app_init =
     \<lparr>state = \<lparr>currentUrl = [], currentDownloadType = DOWNLOAD_TYPES_VIDEO,
               currentQuality = DEFAULT_VIDEO_QUALITY, currentDownloadId = Null,
               progressTracker = None, videoInfo = JNull\<rparr>,
      view = \<lparr>urlInput = [], videoInfoShown = False, shown = None, errorMessage = [],
              loading = False, toasts = []\<rparr>,
      heap = [], intervals = [], next_handle = 1, queries = [], next_query = 0,
      infos = [], dispatches = [], next_call = 0, requests = []\<rparr>"

text \<open>
  The three closures that \<^verbatim>\<open>trackProgress\<close> gives to a tracker. \<^verbatim>\<open>UI.updateProgress\<close>
  writes texts of the progress section only. The completion callback ends with
  \<^verbatim>\<open>this.loadHistory()\<close>, which sends the history request.
\<close>

fun callback_body :: "string \<Rightarrow> callback \<Rightarrow> app \<Rightarrow> app" where
  "callback_body base (OnUpdate progress) a = a"
| "callback_body base (OnComplete progress) a =
     a\<lparr>view := showToast ''Download complete!'' (showSuccess (view a)),
       requests := requests a @ [getDownloads_request base]\<rparr>"
| "callback_body base (OnError error) a =
     a\<lparr>view := showToast (''Download failed: '' @ to_string error)
                (showError (to_string error) (view a))\<rparr>"

text \<open>The runtime's part in an action of the tracker at address \<open>addr\<close>.\<close>

fun app_perform :: "string \<Rightarrow> nat \<Rightarrow> action \<Rightarrow> app \<Rightarrow> app" where
  "app_perform base addr (SetInterval h) a =
     a\<lparr>intervals := intervals a @ [(h, addr)], next_handle := Suc (next_handle a)\<rparr>"
| "app_perform base addr (ClearInterval h) a =
     a\<lparr>intervals := filter (\<lambda>i. fst i \<noteq> h) (intervals a)\<rparr>"
| "app_perform base addr (GetProgress did) a =
     a\<lparr>queries := queries a @ [(next_query a, addr)], next_query := Suc (next_query a),
       requests := requests a @ [getProgress_request base did]\<rparr>"
| "app_perform base addr (Invoke c t) a = callback_body base c a"

text \<open>
  A call \<open>meth\<close> on the tracker at \<open>addr\<close>. Every address the controller holds is one it
  got from the constructor; the model leaves the page unchanged for any other number.
\<close>

definition on_tracker ::
  "string \<Rightarrow> nat \<Rightarrow> (tracker \<Rightarrow> tracker \<times> action list) \<Rightarrow> app \<Rightarrow> app" where
  "on_tracker base addr meth a =
     (if addr < length (heap a) then
        (let (t', acts) = meth (heap a ! addr)
         in fold (app_perform base addr) acts (a\<lparr>heap := (heap a)[addr := t']\<rparr>))
      else a)"

text \<open>\<^verbatim>\<open>App.fetchVideoInfo\<close> up to its \<^verbatim>\<open>await\<close>.\<close>

definition fetchVideoInfo :: "url_parser \<Rightarrow> string \<Rightarrow> app \<Rightarrow> app" where
  "fetchVideoInfo new_URL base a =
     (let url = trim (urlInput (view a)) in
      if url = [] then a\<lparr>view := showToast ''Please enter a URL'' (view a)\<rparr>
      else
        (case isValidUrl new_URL url of
           Inl e \<Rightarrow> a
         | Inr False \<Rightarrow> a\<lparr>view := showToast ''Please enter a valid URL'' (view a)\<rparr>
         | Inr True \<Rightarrow>
             a\<lparr>state := (state a)\<lparr>currentUrl := url\<rparr>,
               view := setLoading True (view a),
               requests := requests a @ [getVideoInfo_request base url],
               infos := infos a @ [next_call a],
               next_call := Suc (next_call a)\<rparr>))"

text \<open>
  \<^verbatim>\<open>App.fetchVideoInfo\<close> from its \<^verbatim>\<open>await\<close> on. \<^verbatim>\<open>UI.showVideoInfo(info)\<close> reads
  \<^verbatim>\<open>info.thumbnail\<close> first, which throws when \<open>info\<close> is \<^verbatim>\<open>null\<close>.
\<close>

definition fetchVideoInfo_settled :: "null_error \<Rightarrow> fetched \<Rightarrow> app \<Rightarrow> app" where
  "fetchVideoInfo_settled nullError f a =
     (let a' =
        (case API_post nullError f of
           Inr (JObj info) \<Rightarrow>
             a\<lparr>state := (state a)\<lparr>videoInfo := JObj info\<rparr>,
               view := showToast ''Video info loaded successfully!'' (showVideoInfo (view a))\<rparr>
         | Inr JNull \<Rightarrow>
             a\<lparr>state := (state a)\<lparr>videoInfo := JNull\<rparr>,
               view := showError (message (nullError ''thumbnail''))
                         (showToast (''Error: '' @ message (nullError ''thumbnail'')) (view a))\<rparr>
         | Inl error \<Rightarrow>
             a\<lparr>view := showError (message error)
                         (showToast (''Error: '' @ message error) (view a))\<rparr>)
      in a'\<lparr>view := setLoading False (view a')\<rparr>)"

text \<open>\<^verbatim>\<open>App.trackProgress\<close>; the new tracker gets the next free address.\<close>

definition trackProgress :: "string \<Rightarrow> app \<Rightarrow> app" where
  "trackProgress base a =
     (let a1 = (case progressTracker (state a) of
                  Some old \<Rightarrow> on_tracker base old stop a
                | None \<Rightarrow> a);
          addr = length (heap a1);
          a2 = a1\<lparr>heap := heap a1 @ [new_ProgressTracker (currentDownloadId (state a1))],
                  state := (state a1)\<lparr>progressTracker := Some addr\<rparr>\<rparr>
      in on_tracker base addr (start (next_handle a2)) a2)"

text \<open>\<^verbatim>\<open>App.startDownload\<close> up to its \<^verbatim>\<open>await\<close>.\<close>

definition startDownload :: "string \<Rightarrow> app \<Rightarrow> app" where
  "startDownload base a =
     (if currentUrl (state a) = [] then
        a\<lparr>view := showToast ''Please fetch video info first'' (view a)\<rparr>
      else
        a\<lparr>view := setLoading True (view a),
          requests := requests a @
            [startDownload_request base (currentUrl (state a)) (currentDownloadType (state a))
               (Str (currentQuality (state a)))],
          dispatches := dispatches a @ [next_call a],
          next_call := Suc (next_call a)\<rparr>)"

text \<open>
  \<^verbatim>\<open>App.startDownload\<close> from its \<^verbatim>\<open>await\<close> on. Reading \<^verbatim>\<open>response.download_id\<close> of
  a \<^verbatim>\<open>null\<close> response throws.
\<close>

definition startDownload_settled ::
  "null_error \<Rightarrow> string \<Rightarrow> fetched \<Rightarrow> app \<Rightarrow> app" where
  "startDownload_settled nullError base f a =
     (let a' =
        (case API_post nullError f of
           Inr (JObj response) \<Rightarrow>
             trackProgress base
               (a\<lparr>state := (state a)\<lparr>currentDownloadId := getprop response ''download_id''\<rparr>,
                  view := showToast ''Download started!'' (showProgress (view a))\<rparr>)
         | Inr JNull \<Rightarrow>
             a\<lparr>view := showError (message (nullError ''download_id''))
                         (showToast (''Error: '' @ message (nullError ''download_id'')) (view a))\<rparr>
         | Inl error \<Rightarrow>
             a\<lparr>view := showError (message error)
                         (showToast (''Error: '' @ message error) (view a))\<rparr>)
      in a'\<lparr>view := setLoading False (view a')\<rparr>)"

text \<open>
  The tasks of the page's event loop: the user's actions on the download tab, and the
  settling of what the controller and its trackers are waiting for. A call that is not
  pending does not settle and a timer that is not live does not fire.
\<close>

datatype app_event =
    InputUrl string
  | ClickFetchInfo
  | InfoSettles nat fetched
  | ChooseType string
  | ChooseQuality string
  | ClickDownload
  | DispatchSettles nat fetched
  | ClickNewDownload
  | ClickRetry
  | IntervalFires nat
  | QuerySettles nat fetched

fun app_step ::
  "url_parser \<Rightarrow> null_error \<Rightarrow> string \<Rightarrow> app_event \<Rightarrow> app \<Rightarrow> app" where
  "app_step new_URL nullError base (InputUrl s) a = a\<lparr>view := (view a)\<lparr>urlInput := s\<rparr>\<rparr>"
| "app_step new_URL nullError base ClickFetchInfo a = fetchVideoInfo new_URL base a"
| "app_step new_URL nullError base (InfoSettles k f) a =
     (if k \<in> set (infos a) then fetchVideoInfo_settled nullError f (a\<lparr>infos := removeAll k (infos a)\<rparr>)
      else a)"
| "app_step new_URL nullError base (ChooseType type) a =
     a\<lparr>state := (state a)\<lparr>currentDownloadType := type\<rparr>\<rparr>"
| "app_step new_URL nullError base (ChooseQuality q) a =
     a\<lparr>state := (state a)\<lparr>currentQuality := q\<rparr>\<rparr>"
| "app_step new_URL nullError base ClickDownload a = startDownload base a"
| "app_step new_URL nullError base (DispatchSettles k f) a =
     (if k \<in> set (dispatches a) then
        startDownload_settled nullError base f (a\<lparr>dispatches := removeAll k (dispatches a)\<rparr>)
      else a)"
| "app_step new_URL nullError base ClickNewDownload a = a\<lparr>view := resetDownloadUI (view a)\<rparr>"
| "app_step new_URL nullError base ClickRetry a =
     (case videoInfo (state a) of
        JObj info \<Rightarrow> a\<lparr>view := showVideoInfo (hideAllSections (view a))\<rparr>
      | JNull \<Rightarrow> a\<lparr>view := resetDownloadUI (hideAllSections (view a))\<rparr>)"
| "app_step new_URL nullError base (IntervalFires h) a =
     (case map_of (intervals a) h of
        Some addr \<Rightarrow> on_tracker base addr (\<lambda>t. (t, checkProgress t)) a
      | None \<Rightarrow> a)"
| "app_step new_URL nullError base (QuerySettles q f) a =
     (case map_of (queries a) q of
        Some addr \<Rightarrow>
          on_tracker base addr (checkProgress_settled nullError f)
            (a\<lparr>queries := filter (\<lambda>x. fst x \<noteq> q) (queries a)\<rparr>)
      | None \<Rightarrow> a)"

definition app_run ::
  "url_parser \<Rightarrow> null_error \<Rightarrow> string \<Rightarrow> app_event list \<Rightarrow> app \<Rightarrow> app" where
  "app_run new_URL nullError base es a = fold (app_step new_URL nullError base) es a"

text \<open>
  What holds of the page between any two events: a live timer belongs to the tracker
  the controller currently holds and is the one that tracker remembers; every other
  tracker has no timer; a tracker is tracking exactly when it has a timer.
\<close>

definition app_ok :: "app \<Rightarrow> bool" where
  "app_ok a =
     (next_handle a \<noteq> 0
      \<and> (case progressTracker (state a) of
           None \<Rightarrow> intervals a = []
         | Some cur \<Rightarrow>
             cur < length (heap a)
             \<and> intervals a = (case interval (heap a ! cur) of
                               None \<Rightarrow> []
                             | Some h \<Rightarrow> [(h, cur)]))
      \<and> (\<forall>addr < length (heap a).
           (progressTracker (state a) \<noteq> Some addr \<longrightarrow> interval (heap a ! addr) = None)
           \<and> (isTracking (heap a ! addr) \<longleftrightarrow> interval (heap a ! addr) \<noteq> None)
           \<and> interval (heap a ! addr) \<noteq> Some 0)
      \<and> list_all (\<lambda>x. snd x < length (heap a)) (queries a))"


text \<open>
  Two sessions used in the examples below. In the first the user fetches the information
  of a video and starts a download, which is dispatched. In the second the user starts a
  second download while the first is polled; the first tracker's query, still in flight
  when that tracker was replaced, then settles with status \<open>completed\<close>.
\<close>

definition one_download :: "app_event list" where
  "one_download =
     [InputUrl ''https://youtu.be/x'', ClickFetchInfo,
      InfoSettles 0 (Responded True (Parsed (JObj [(''title'', Str ''x'')]))),
      ClickDownload,
      DispatchSettles 1 (Responded True (Parsed (JObj [(''download_id'', Str ''a'')])))]"

definition two_downloads :: "app_event list" where
  "two_downloads =
     one_download @
     [ClickDownload,
      DispatchSettles 2 (Responded True (Parsed (JObj [(''download_id'', Str ''b'')]))),
      QuerySettles 0 (Responded True (Parsed (JObj [(''status'', Str ''completed'')])))]"


section \<open>Properties\<close>

subsection \<open>Requests and failures of the gateway\<close>

lemma getprop_simps [simp]:
  "getprop [] k = Undefined"
  "getprop ((k', v) # ob) k = (if k' = k then v else getprop ob k)"
  by (simp_all add: getprop_def)

text \<open>
  C6. The body of the request sent by \<^verbatim>\<open>startDownload\<close>: for an audio download the
  \<open>quality\<close> property is absent and \<open>audio_format\<close> is the default \<open>mp3\<close>; for a video
  download the requested quality is present and \<open>audio_format\<close> is absent. Absent means
  that the serialized object has no such key, not that the key carries \<open>null\<close>.
\<close>

theorem startDownload_body_fields:
  "(\<exists>b. req_body (startDownload_request base url DOWNLOAD_TYPES_AUDIO quality) = Some b
      \<and> map_of b ''quality'' = None
      \<and> map_of b ''audio_format'' = Some (Str ''mp3''))
   \<and> (\<exists>b. req_body (startDownload_request base url DOWNLOAD_TYPES_VIDEO (Str q)) = Some b
      \<and> map_of b ''quality'' = Some (Str q)
      \<and> map_of b ''audio_format'' = None)"
  by (simp add: startDownload_request_def post_request_def startDownload_data_def
      JSON_stringify_def DOWNLOAD_TYPES_AUDIO_def DOWNLOAD_TYPES_VIDEO_def
      DEFAULT_AUDIO_FORMAT_def)

text \<open>
  A \<^verbatim>\<open>get\<close> or \<^verbatim>\<open>post\<close> whose response is not ok and whose body parses as a JSON
  object fails with an \<^verbatim>\<open>Error\<close> whose message is the string conversion of the
  object's \<open>error\<close> property when that is truthy, and \<open>Request failed\<close> otherwise.
\<close>

lemma failure_message_of_object_body:
  "API_get nullError (Responded False (Parsed (JObj err)))
     = Inl (Error (if truthy (getprop err ''error'') then to_string (getprop err ''error'')
                   else ''Request failed''))
   \<and> API_post nullError (Responded False (Parsed (JObj err)))
     = Inl (Error (if truthy (getprop err ''error'') then to_string (getprop err ''error'')
                   else ''Request failed''))"
  by (cases "getprop err ''error''") (simp_all add: API_get_def API_post_def js_or_def)

text \<open>
  When the body of a response that is not ok cannot be read, \<^verbatim>\<open>response.json()\<close> throws
  inside \<^verbatim>\<open>try\<close> before the line with the fallback is reached, and the \<^verbatim>\<open>catch\<close>
  block rethrows that error.
\<close>

lemma failure_with_unreadable_body:
  "API_get nullError (Responded False (Unparseable e)) = Inl e
   \<and> API_post nullError (Responded False (Unparseable e)) = Inl e"
  by (simp add: API_get_def API_post_def)

text \<open>
  C7 holds of the code for a failed response whose body is a JSON object, and not for one
  whose body is not JSON (an HTML error page of a proxy, say): there is no error field,
  the claim asks for the message \<open>Request failed\<close>, and \<^verbatim>\<open>get\<close> and \<^verbatim>\<open>post\<close> fail
  with the parser's message.
\<close>

theorem unreadable_error_body_message:
  "API_get V8_TypeError
       (Responded False (Unparseable (Error ''Unexpected token < in JSON at position 0'')))
     = Inl (Error ''Unexpected token < in JSON at position 0'')
   \<and> API_post V8_TypeError
       (Responded False (Unparseable (Error ''Unexpected token < in JSON at position 0'')))
     = Inl (Error ''Unexpected token < in JSON at position 0'')
   \<and> API_get V8_TypeError
       (Responded False (Unparseable (Error ''Unexpected token < in JSON at position 0'')))
     \<noteq> Inl (Error ''Request failed'')
   \<and> API_get V8_TypeError (Responded False (Parsed (JObj [])))
     = Inl (Error ''Request failed'')"
  by (simp add: API_get_def API_post_def js_or_def)

subsection \<open>URL validation\<close>

text \<open>
  C9. \<^verbatim>\<open>UI.isValidUrl(url)\<close> never throws, and it returns true exactly when the URL
  parser accepts the string and the string has at most 2048 characters.
\<close>

theorem isValidUrl_iff:
  "isValidUrl new_URL url = Inr ((\<exists>u. new_URL url = Inr u) \<and> length url \<le> 2048)"
  by (cases "new_URL url") (simp_all add: isValidUrl_def MAX_URL_LENGTH_def)

subsection \<open>One tracker: what every step does\<close>

lemma consistent_boot: "consistent (boot did)"
  by (simp add: consistent_def boot_def new_ProgressTracker_def)

lemma stop_fields:
  "consistent w \<Longrightarrow>
   trk (step nullError CallStop w) = (trk w)\<lparr>interval := None, isTracking := False\<rparr>
   \<and> timers (step nullError CallStop w) = []
   \<and> polls (step nullError CallStop w) = polls w
   \<and> next_poll (step nullError CallStop w) = next_poll w
   \<and> next_timer (step nullError CallStop w) = next_timer w
   \<and> history (step nullError CallStop w) = history w @ map ClearInterval (timers w)"
  by (auto simp: consistent_def stop_def split: option.splits)

lemma start_fields:
  "consistent w \<Longrightarrow> \<not> isTracking (trk w) \<Longrightarrow>
   trk (step nullError CallStart w) = (trk w)\<lparr>isTracking := True, interval := Some (next_timer w)\<rparr>
   \<and> timers (step nullError CallStart w) = [next_timer w]
   \<and> polls (step nullError CallStart w) = polls w @ [next_poll w]
   \<and> next_poll (step nullError CallStart w) = Suc (next_poll w)
   \<and> next_timer (step nullError CallStart w) = Suc (next_timer w)
   \<and> history (step nullError CallStart w) = history w @ [GetProgress (downloadId (trk w)), SetInterval (next_timer w)]"
  by (auto simp: consistent_def start_def checkProgress_def split: option.splits)

lemma start_noop: "isTracking (trk w) \<Longrightarrow> step nullError CallStart w = w"
  by (simp add: start_def)

lemma fire_fields:
  "h \<in> set (timers w) \<Longrightarrow>
   trk (step nullError (TimerFires h) w) = trk w
   \<and> timers (step nullError (TimerFires h) w) = timers w
   \<and> polls (step nullError (TimerFires h) w) = polls w @ [next_poll w]
   \<and> next_poll (step nullError (TimerFires h) w) = Suc (next_poll w)
   \<and> next_timer (step nullError (TimerFires h) w) = next_timer w
   \<and> history (step nullError (TimerFires h) w) = history w @ [GetProgress (downloadId (trk w))]"
  by (simp add: checkProgress_def)

lemma fire_noop: "h \<notin> set (timers w) \<Longrightarrow> step nullError (TimerFires h) w = w"
  by simp

lemma settle_noop: "p \<notin> set (polls w) \<Longrightarrow> step nullError (PollSettles p f) w = w"
  by simp

lemma settled_terminal:
  "terminal_outcome nullError f \<Longrightarrow>
   \<exists>c. is_terminal c \<and>
     checkProgress_settled nullError f t = (fst (stop t), snd (stop t) @ [Invoke c (fst (stop t))])"
  by (auto simp: terminal_outcome_def checkProgress_settled_def split: sum.splits json.splits prod.splits)

lemma settled_progress:
  "\<not> terminal_outcome nullError f \<Longrightarrow>
   \<exists>r. API_get nullError f = Inr (JObj r) \<and> checkProgress_settled nullError f t = (t, [Invoke (OnUpdate r) t])"
  by (auto simp: terminal_outcome_def checkProgress_settled_def split: sum.splits json.splits prod.splits)

lemma settle_terminal_fields:
  assumes "consistent w" "p \<in> set (polls w)" "terminal_outcome nullError f"
  shows "\<exists>c. is_terminal c \<and>
   trk (step nullError (PollSettles p f) w) = (trk w)\<lparr>interval := None, isTracking := False\<rparr>
   \<and> timers (step nullError (PollSettles p f) w) = []
   \<and> polls (step nullError (PollSettles p f) w) = removeAll p (polls w)
   \<and> next_poll (step nullError (PollSettles p f) w) = next_poll w
   \<and> next_timer (step nullError (PollSettles p f) w) = next_timer w
   \<and> history (step nullError (PollSettles p f) w) =
       history w @ map ClearInterval (timers w) @ [Invoke c ((trk w)\<lparr>interval := None, isTracking := False\<rparr>)]"
proof -
  from settled_terminal [OF assms(3)] obtain c where c: "is_terminal c"
    and eq: "checkProgress_settled nullError f (trk w) = (fst (stop (trk w)), snd (stop (trk w)) @ [Invoke c (fst (stop (trk w)))])"
    by blast
  show ?thesis
    using assms(1,2) c
    by (intro exI [of _ c]) (auto simp: eq consistent_def stop_def split: option.splits)
qed

lemma settle_progress_fields:
  assumes "p \<in> set (polls w)" "\<not> terminal_outcome nullError f"
  shows "\<exists>r. API_get nullError f = Inr (JObj r) \<and>
   trk (step nullError (PollSettles p f) w) = trk w
   \<and> timers (step nullError (PollSettles p f) w) = timers w
   \<and> polls (step nullError (PollSettles p f) w) = removeAll p (polls w)
   \<and> next_poll (step nullError (PollSettles p f) w) = next_poll w
   \<and> next_timer (step nullError (PollSettles p f) w) = next_timer w
   \<and> history (step nullError (PollSettles p f) w) = history w @ [Invoke (OnUpdate r) (trk w)]"
proof -
  from settled_progress [OF assms(2)] obtain r where r: "API_get nullError f = Inr (JObj r)"
    and eq: "checkProgress_settled nullError f (trk w) = (trk w, [Invoke (OnUpdate r) (trk w)])"
    by blast
  show ?thesis using assms(1) r by (intro exI [of _ r]) (simp add: eq)
qed

declare step.simps [simp del]

lemma consistent_step: "consistent w \<Longrightarrow> consistent (step nullError e w)"
proof (cases e)
  case CallStart
  assume c: "consistent w"
  show ?thesis
  proof (cases "isTracking (trk w)")
    case True
    then show ?thesis using c CallStart by (simp add: start_noop)
  next
    case False
    from start_fields [OF c False] show ?thesis
      using c unfolding CallStart consistent_def
      by (auto simp: list_all_iff less_Suc_eq split: option.splits)
  qed
next
  case CallStop
  assume c: "consistent w"
  from stop_fields [OF c] show ?thesis
    using c unfolding CallStop consistent_def by (auto split: option.splits)
next
  case (TimerFires h)
  assume c: "consistent w"
  show ?thesis
  proof (cases "h \<in> set (timers w)")
    case True
    from fire_fields [OF True] show ?thesis
      using c unfolding TimerFires consistent_def
      by (auto simp: list_all_iff less_Suc_eq split: option.splits)
  next
    case False
    then show ?thesis using c TimerFires by (simp add: fire_noop)
  qed
next
  case (PollSettles p f)
  assume c: "consistent w"
  show ?thesis
  proof (cases "p \<in> set (polls w)")
    case False
    then show ?thesis using c PollSettles by (simp add: settle_noop)
  next
    case True
    show ?thesis
    proof (cases "terminal_outcome nullError f")
      case t: True
      from settle_terminal_fields [OF c True t] show ?thesis
        using c unfolding PollSettles consistent_def
        by (auto simp: list_all_iff distinct_removeAll split: option.splits)
    next
      case t: False
      from settle_progress_fields [OF True t] show ?thesis
        using c unfolding PollSettles consistent_def
        by (auto simp: list_all_iff distinct_removeAll split: option.splits)
    qed
  qed
qed

lemma consistent_run: "consistent w \<Longrightarrow> consistent (run nullError es w)"
  unfolding run_def by (induction es arbitrary: w) (simp_all add: consistent_step)

lemma consistent_reachable: "consistent (run nullError es (boot did))"
  by (simp add: consistent_run consistent_boot)

lemma downloadId_step: "downloadId (trk (step nullError e w)) = downloadId (trk w)"
  by (cases e)
     (auto simp: step.simps start_def stop_def checkProgress_def checkProgress_settled_def
        split: option.splits sum.splits json.splits prod.splits)

lemma trk_fold_perform [simp]: "trk (fold perform acts w) = trk w"
proof (induction acts arbitrary: w)
  case Nil
  show ?case by simp
next
  case (Cons a acts)
  show ?case by (cases a) (simp_all add: Cons.IH)
qed

lemma downloadId_run: "downloadId (trk (run nullError es w)) = downloadId (trk w)"
  unfolding run_def 
proof (induction es arbitrary: w)
  case Nil
  show ?case by simp
next
  case (Cons e es)
  show ?case by (simp add: Cons.IH downloadId_step)
qed

lemma downloadId_reachable: "downloadId (trk (run nullError es (boot did))) = did"
  by (simp add: downloadId_run boot_def new_ProgressTracker_def)

lemma settle_fold:
  "p \<in> set (polls w) \<Longrightarrow> checkProgress_settled nullError f (trk w) = (t', acts) \<Longrightarrow>
   step nullError (PollSettles p f) w = fold perform acts (w\<lparr>trk := t', polls := removeAll p (polls w)\<rparr>)"
  by (simp add: step.simps)

lemma stop_consistent:
  "consistent w \<Longrightarrow>
   stop (trk w) = ((trk w)\<lparr>interval := None, isTracking := False\<rparr>, map ClearInterval (timers w))"
  by (auto simp: consistent_def stop_def split: option.splits)

lemma perform_clear_then_invoke:
  "consistent w \<Longrightarrow>
   history (fold perform (map ClearInterval (timers w) @ [Invoke c t]) (w\<lparr>trk := t', polls := ps\<rparr>))
     = history w @ map ClearInterval (timers w) @ [Invoke c t]
   \<and> timers (fold perform (map ClearInterval (timers w) @ [Invoke c t]) (w\<lparr>trk := t', polls := ps\<rparr>)) = []"
  by (auto simp: consistent_def split: option.splits)

lemmas eval_defs =
  run_def boot_def new_ProgressTracker_def step.simps start_def stop_def checkProgress_def
  checkProgress_settled_def API_get_def js_or_def V8_TypeError_def terminal_outcome_def

subsection \<open>One tracker: the poll cycle\<close>

text \<open>
  C5. In every world a tracker can reach: a firing of its timer sends the status query
  for its download id; a report with status \<open>completed\<close> clears the timer and then calls
  the success callback with the report; a report with status \<open>error\<close> clears the timer
  and then calls the failure callback with the report's error text, or with
  \<open>Download failed\<close> when there is none; a report with any other status calls the progress
  callback with the report and leaves the tracker and its timer as they were; a failed
  query clears the timer and then calls the failure callback with the failure's message.
\<close>

theorem poll_cycle_classification:
  assumes "w = run nullError es (boot did)"
  shows
   "(\<forall>h. h \<in> set (timers w) \<longrightarrow>
        history (step nullError (TimerFires h) w) = history w @ [GetProgress did])
    \<and> (\<forall>p f r. p \<in> set (polls w) \<and> API_get nullError f = Inr (JObj r)
          \<and> getprop r ''status'' = Str ''completed'' \<longrightarrow>
        history (step nullError (PollSettles p f) w)
          = history w @ map ClearInterval (timers w)
              @ [Invoke (OnComplete r) (trk (step nullError (PollSettles p f) w))]
        \<and> timers (step nullError (PollSettles p f) w) = []
        \<and> \<not> isTracking (trk (step nullError (PollSettles p f) w)))
    \<and> (\<forall>p f r. p \<in> set (polls w) \<and> API_get nullError f = Inr (JObj r)
          \<and> getprop r ''status'' = Str ''error'' \<longrightarrow>
        history (step nullError (PollSettles p f) w)
          = history w @ map ClearInterval (timers w)
              @ [Invoke (OnError (if truthy (getprop r ''error'') then getprop r ''error''
                                  else Str ''Download failed''))
                   (trk (step nullError (PollSettles p f) w))]
        \<and> timers (step nullError (PollSettles p f) w) = []
        \<and> \<not> isTracking (trk (step nullError (PollSettles p f) w)))
    \<and> (\<forall>p f r. p \<in> set (polls w) \<and> API_get nullError f = Inr (JObj r)
          \<and> getprop r ''status'' \<noteq> Str ''completed''
          \<and> getprop r ''status'' \<noteq> Str ''error'' \<longrightarrow>
        history (step nullError (PollSettles p f) w) = history w @ [Invoke (OnUpdate r) (trk w)]
        \<and> trk (step nullError (PollSettles p f) w) = trk w
        \<and> timers (step nullError (PollSettles p f) w) = timers w)
    \<and> (\<forall>p f e. p \<in> set (polls w) \<and> API_get nullError f = Inl e \<longrightarrow>
        history (step nullError (PollSettles p f) w)
          = history w @ map ClearInterval (timers w)
              @ [Invoke (OnError (Str (message e))) (trk (step nullError (PollSettles p f) w))]
        \<and> timers (step nullError (PollSettles p f) w) = []
        \<and> \<not> isTracking (trk (step nullError (PollSettles p f) w)))"
proof -
  have c: "consistent w" using assms consistent_reachable by simp
  have d: "downloadId (trk w) = did" using assms downloadId_reachable by simp
  note st = stop_consistent [OF c]
  note pf = perform_clear_then_invoke [OF c]
  have fire: "\<forall>h. h \<in> set (timers w) \<longrightarrow>
        history (step nullError (TimerFires h) w) = history w @ [GetProgress did]"
    using fire_fields d by simp
  have completed: "history (step nullError (PollSettles p f) w)
          = history w @ map ClearInterval (timers w)
              @ [Invoke (OnComplete r) (trk (step nullError (PollSettles p f) w))]
        \<and> timers (step nullError (PollSettles p f) w) = []
        \<and> \<not> isTracking (trk (step nullError (PollSettles p f) w))"
    if "p \<in> set (polls w)" "API_get nullError f = Inr (JObj r)" "getprop r ''status'' = Str ''completed''"
    for p f r
  proof -
    have "checkProgress_settled nullError f (trk w)
        = ((trk w)\<lparr>interval := None, isTracking := False\<rparr>,
           map ClearInterval (timers w)
             @ [Invoke (OnComplete r) ((trk w)\<lparr>interval := None, isTracking := False\<rparr>)])"
      using that(2,3) by (simp add: checkProgress_settled_def st)
    from settle_fold [OF that(1) this] pf show ?thesis by simp
  qed
  have failed: "history (step nullError (PollSettles p f) w)
          = history w @ map ClearInterval (timers w)
              @ [Invoke (OnError (if truthy (getprop r ''error'') then getprop r ''error''
                                  else Str ''Download failed''))
                   (trk (step nullError (PollSettles p f) w))]
        \<and> timers (step nullError (PollSettles p f) w) = []
        \<and> \<not> isTracking (trk (step nullError (PollSettles p f) w))"
    if "p \<in> set (polls w)" "API_get nullError f = Inr (JObj r)" "getprop r ''status'' = Str ''error''"
    for p f r
  proof -
    have "checkProgress_settled nullError f (trk w)
        = ((trk w)\<lparr>interval := None, isTracking := False\<rparr>,
           map ClearInterval (timers w)
             @ [Invoke (OnError (if truthy (getprop r ''error'') then getprop r ''error''
                                  else Str ''Download failed''))
                  ((trk w)\<lparr>interval := None, isTracking := False\<rparr>)])"
      using that(2,3) by (simp add: checkProgress_settled_def st js_or_def)
    from settle_fold [OF that(1) this] pf show ?thesis by simp
  qed
  have other: "history (step nullError (PollSettles p f) w) = history w @ [Invoke (OnUpdate r) (trk w)]
        \<and> trk (step nullError (PollSettles p f) w) = trk w
        \<and> timers (step nullError (PollSettles p f) w) = timers w"
    if "p \<in> set (polls w)" "API_get nullError f = Inr (JObj r)"
      "getprop r ''status'' \<noteq> Str ''completed''" "getprop r ''status'' \<noteq> Str ''error''"
    for p f r
  proof -
    have "checkProgress_settled nullError f (trk w) = (trk w, [Invoke (OnUpdate r) (trk w)])"
      using that(2,3,4) by (simp add: checkProgress_settled_def)
    from settle_fold [OF that(1) this] show ?thesis by simp
  qed
  have transport: "history (step nullError (PollSettles p f) w)
          = history w @ map ClearInterval (timers w)
              @ [Invoke (OnError (Str (message e))) (trk (step nullError (PollSettles p f) w))]
        \<and> timers (step nullError (PollSettles p f) w) = []
        \<and> \<not> isTracking (trk (step nullError (PollSettles p f) w))"
    if "p \<in> set (polls w)" "API_get nullError f = Inl e" for p f e
  proof -
    have "checkProgress_settled nullError f (trk w)
        = ((trk w)\<lparr>interval := None, isTracking := False\<rparr>,
           map ClearInterval (timers w)
             @ [Invoke (OnError (Str (message e))) ((trk w)\<lparr>interval := None, isTracking := False\<rparr>)])"
      using that(2) by (simp add: checkProgress_settled_def st)
    from settle_fold [OF that(1) this] pf show ?thesis by simp
  qed
  from fire completed failed other transport show ?thesis by blast
qed

text \<open>
  An instance: a tracker right after \<^verbatim>\<open>start()\<close>, its timer firing, and its first
  query settling in each of the four ways.
\<close>

theorem poll_cycle_classification_witness:
  "1 \<in> set (timers (run V8_TypeError [CallStart] (boot (Str ''d1''))))
   \<and> history (step V8_TypeError (TimerFires 1) (run V8_TypeError [CallStart] (boot (Str ''d1''))))
       = [GetProgress (Str ''d1''), SetInterval 1, GetProgress (Str ''d1'')]
   \<and> 0 \<in> set (polls (run V8_TypeError [CallStart] (boot (Str ''d1''))))
   \<and> API_get V8_TypeError (Responded True (Parsed (JObj [(''status'', Str ''completed'')])))
       = Inr (JObj [(''status'', Str ''completed'')])
   \<and> invoked (history (step V8_TypeError (PollSettles 0 (Responded True (Parsed (JObj [(''status'', Str ''completed'')]))))
         (run V8_TypeError [CallStart] (boot (Str ''d1'')))))
       = [OnComplete [(''status'', Str ''completed'')]]
   \<and> API_get V8_TypeError (Responded True (Parsed (JObj [(''status'', Str ''error''), (''error'', Str ''no such video'')])))
       = Inr (JObj [(''status'', Str ''error''), (''error'', Str ''no such video'')])
   \<and> invoked (history (step V8_TypeError (PollSettles 0
           (Responded True (Parsed (JObj [(''status'', Str ''error''), (''error'', Str ''no such video'')]))))
         (run V8_TypeError [CallStart] (boot (Str ''d1'')))))
       = [OnError (Str ''no such video'')]
   \<and> API_get V8_TypeError (Responded True (Parsed (JObj [(''status'', Str ''downloading'')])))
       = Inr (JObj [(''status'', Str ''downloading'')])
   \<and> timers (step V8_TypeError (PollSettles 0 (Responded True (Parsed (JObj [(''status'', Str ''downloading'')]))))
         (run V8_TypeError [CallStart] (boot (Str ''d1'')))) = [1]
   \<and> API_get V8_TypeError (Rejected (Error ''Failed to fetch'')) = Inl (Error ''Failed to fetch'')
   \<and> invoked (history (step V8_TypeError (PollSettles 0 (Rejected (Error ''Failed to fetch'')))
         (run V8_TypeError [CallStart] (boot (Str ''d1'')))))
       = [OnError (Str ''Failed to fetch'')]"
  using poll_cycle_classification
    [where nullError = V8_TypeError and es = "[CallStart]" and did = "Str ''d1''", OF refl]
  by (simp add: eval_defs)

text \<open>
  C10. In a poll cycle that ends a download (status \<open>completed\<close>, status \<open>error\<close>, or
  the \<^verbatim>\<open>catch\<close> block), the timer is cleared before the callback is called: the cycle
  adds to the history the clearing of the live timer and then one call of a terminal
  callback, and at that call the tracker has no interval and is not tracking.
\<close>

theorem stop_precedes_terminal_callback:
  assumes "w = run nullError es (boot did)" and "p \<in> set (polls w)" and "terminal_outcome nullError f"
  shows "\<exists>c t. is_terminal c
     \<and> history (step nullError (PollSettles p f) w) = history w @ map ClearInterval (timers w) @ [Invoke c t]
     \<and> interval t = None \<and> \<not> isTracking t
     \<and> timers (fold perform (map ClearInterval (timers w)) w) = []"
proof -
  have c: "consistent w" using assms(1) consistent_reachable by simp
  from settle_terminal_fields [OF c assms(2,3)] obtain cb where "is_terminal cb"
    and "history (step nullError (PollSettles p f) w) = history w @ map ClearInterval (timers w)
        @ [Invoke cb ((trk w)\<lparr>interval := None, isTracking := False\<rparr>)]"
    by blast
  moreover have "timers (fold perform (map ClearInterval (timers w)) w) = []"
    using c by (auto simp: consistent_def split: option.splits)
  ultimately show ?thesis by auto
qed

text \<open>An instance: the first query of a started tracker settles with status \<open>completed\<close>.\<close>

theorem stop_precedes_terminal_callback_witness:
  "0 \<in> set (polls (run V8_TypeError [CallStart] (boot (Str ''d1''))))
   \<and> terminal_outcome V8_TypeError (Responded True (Parsed (JObj [(''status'', Str ''completed'')])))
   \<and> history (step V8_TypeError (PollSettles 0 (Responded True (Parsed (JObj [(''status'', Str ''completed'')]))))
         (run V8_TypeError [CallStart] (boot (Str ''d1''))))
       = [GetProgress (Str ''d1''), SetInterval 1, ClearInterval 1,
          Invoke (OnComplete [(''status'', Str ''completed'')])
            \<lparr>downloadId = Str ''d1'', interval = None, isTracking = False\<rparr>]"
  using stop_precedes_terminal_callback
    [where nullError = V8_TypeError and es = "[CallStart]" and did = "Str ''d1''" and p = 0
       and f = "Responded True (Parsed (JObj [(''status'', Str ''completed'')]))", OF refl]
  by (simp add: eval_defs)

text \<open>
  C2, as the code has it. The queries are sent by \<^verbatim>\<open>setInterval\<close>, which does not wait
  for a handler: while a tracker is tracking, exactly one interval timer is live and every
  firing of it sends a new status query for the tracker's download id, whatever the
  number of queries still in flight.
\<close>

theorem timer_fire_sends_query:
  assumes "w = run nullError es (boot did)" and "isTracking (trk w)"
  shows "\<exists>h. timers w = [h]
     \<and> polls (step nullError (TimerFires h) w) = polls w @ [next_poll w]
     \<and> next_poll w \<notin> set (polls w)
     \<and> history (step nullError (TimerFires h) w) = history w @ [GetProgress did]"
proof -
  have c: "consistent w" using assms(1) consistent_reachable by simp
  have d: "downloadId (trk w) = did" using assms(1) downloadId_reachable by simp
  from c assms(2) obtain h where h: "timers w = [h]"
    by (auto simp: consistent_def split: option.splits)
  then have "h \<in> set (timers w)" by simp
  from fire_fields [OF this] c h d show ?thesis
    by (auto simp: consistent_def list_all_iff)
qed

text \<open>An instance: the timer fires while the first query is still in flight.\<close>

theorem timer_fire_sends_query_witness:
  "isTracking (trk (run V8_TypeError [CallStart] (boot (Str ''d1''))))
   \<and> polls (step V8_TypeError (TimerFires 1) (run V8_TypeError [CallStart] (boot (Str ''d1'')))) = [0, 1]"
  using timer_fire_sends_query
    [where nullError = V8_TypeError and es = "[CallStart]" and did = "Str ''d1''", OF refl]
  by (simp add: eval_defs)

text \<open>
  C2 as stated fails: after start and one firing of the timer two queries are in flight,
  and when the second settles before the first, its report is handled first.
\<close>

theorem two_queries_outstanding:
  "polls (run V8_TypeError [CallStart, TimerFires 1] (boot (Str ''d1''))) = [0, 1]
   \<and> invoked (history (run V8_TypeError [CallStart, TimerFires 1,
        PollSettles 1 (Responded True (Parsed (JObj [(''status'', Str ''processing'')]))),
        PollSettles 0 (Responded True (Parsed (JObj [(''status'', Str ''downloading'')])))]
        (boot (Str ''d1''))))
     = [OnUpdate [(''status'', Str ''processing'')], OnUpdate [(''status'', Str ''downloading'')]]"
  by (simp add: eval_defs)

subsection \<open>One tracker: after it has stopped\<close>

lemma length_removeAll_distinct:
  "distinct xs \<Longrightarrow> x \<in> set xs \<Longrightarrow> Suc (length (removeAll x xs)) = length xs"
  by (induction xs) auto

lemma invoked_append [simp]: "invoked (xs @ ys) = invoked xs @ invoked ys"
  by (induction xs rule: invoked.induct) simp_all

lemma invoked_ClearInterval [simp]: "invoked (map ClearInterval hs) = []"
  by (induction hs) simp_all

lemma sent_append [simp]: "sent (xs @ ys) = sent xs + sent ys"
  by (simp add: sent_def)

lemma sent_ClearInterval [simp]: "sent (map ClearInterval hs) = 0"
  by (induction hs) (simp_all add: sent_def)

lemma sent_simps [simp]:
  "sent [] = 0"
  "sent (GetProgress d # acts) = Suc (sent acts)"
  "sent (Invoke c t # acts) = sent acts"
  "sent (SetInterval h # acts) = sent acts"
  "sent (ClearInterval h # acts) = sent acts"
  by (simp_all add: sent_def)

text \<open>A stopped tracker: one step that is not a call of start.\<close>

lemma idle_step:
  assumes c: "consistent w" and idle: "interval (trk w) = None" and e: "e \<noteq> CallStart"
  shows "interval (trk (step nullError e w)) = None
    \<and> sent (history (step nullError e w)) = sent (history w)
    \<and> length (invoked (history (step nullError e w))) + length (polls (step nullError e w))
        = length (invoked (history w)) + length (polls w)
    \<and> length (filter is_terminal (invoked (history (step nullError e w)))) + length (polls (step nullError e w))
        \<le> length (filter is_terminal (invoked (history w))) + length (polls w)
    \<and> set (polls (step nullError e w)) \<subseteq> set (polls w)
    \<and> (polls w = [] \<longrightarrow> history (step nullError e w) = history w)"
proof -
  from c idle have tm: "timers w = []" and d: "distinct (polls w)"
    by (simp_all add: consistent_def)
  show ?thesis
  proof (cases e)
    case CallStart
    with e show ?thesis by simp
  next
    case CallStop
    from stop_fields [OF c] show ?thesis unfolding CallStop using tm by simp
  next
    case (TimerFires h)
    then show ?thesis using idle tm by (simp add: fire_noop)
  next
    case (PollSettles p f)
    show ?thesis
    proof (cases "p \<in> set (polls w)")
      case False
      then show ?thesis using idle PollSettles by (simp add: settle_noop)
    next
      case True
      note len = length_removeAll_distinct [OF d True]
      have ne: "polls w \<noteq> []" using True by auto
      show ?thesis
      proof (cases "terminal_outcome nullError f")
        case t: True
        from settle_terminal_fields [OF c True t] show ?thesis
          unfolding PollSettles using tm len ne by auto
      next
        case t: False
        from settle_progress_fields [OF True t] show ?thesis
          unfolding PollSettles using tm len ne idle by auto
      qed
    qed
  qed
qed

lemma idle_run:
  assumes "consistent w" "interval (trk w) = None" "CallStart \<notin> set es"
  shows "interval (trk (run nullError es w)) = None
    \<and> sent (history (run nullError es w)) = sent (history w)
    \<and> length (invoked (history (run nullError es w))) + length (polls (run nullError es w))
        = length (invoked (history w)) + length (polls w)
    \<and> length (filter is_terminal (invoked (history (run nullError es w)))) + length (polls (run nullError es w))
        \<le> length (filter is_terminal (invoked (history w))) + length (polls w)
    \<and> set (polls (run nullError es w)) \<subseteq> set (polls w)
    \<and> (polls w = [] \<longrightarrow> history (run nullError es w) = history w)"
  using assms
proof (induction es arbitrary: w)
  case Nil
  then show ?case by (simp add: run_def)
next
  case (Cons e es)
  have e: "e \<noteq> CallStart" and es: "CallStart \<notin> set es" using Cons.prems(3) by auto
  note s = idle_step [where nullError = nullError, OF Cons.prems(1,2) e]
  have c': "consistent (step nullError e w)" by (rule consistent_step [OF Cons.prems(1)])
  have i': "interval (trk (step nullError e w)) = None" using s by simp
  note r = Cons.IH [OF c' i' es]
  have run: "run nullError (e # es) w = run nullError es (step nullError e w)" by (simp add: run_def)
  have emp: "polls w = [] \<Longrightarrow> polls (step nullError e w) = []" using s by auto
  show ?case unfolding run using s r emp by auto
qed

lemma idle_timers: "consistent w \<Longrightarrow> interval (trk w) = None \<Longrightarrow> timers w = [] \<and> \<not> isTracking (trk w)"
  by (simp add: consistent_def)

text \<open>
  C1, as the code has it. \<^verbatim>\<open>checkProgress\<close> does not look at \<open>isTracking\<close> after its
  \<^verbatim>\<open>await\<close>, so \<^verbatim>\<open>stop()\<close> clears the timer but does not silence a query that is
  already in flight. After \<^verbatim>\<open>stop()\<close> has returned, and as long as \<^verbatim>\<open>start()\<close> is not
  called again, the timer stays cleared, \<open>isTracking\<close> stays false and no new status query
  is sent; every query that was in flight still delivers exactly one callback when it
  settles, and nothing else calls a callback.
\<close>

theorem after_stop_only_inflight_results:
  assumes "w = step nullError CallStop (run nullError es0 (boot did))" and "CallStart \<notin> set es"
  shows "timers (run nullError es w) = [] \<and> \<not> isTracking (trk (run nullError es w))
    \<and> sent (history (run nullError es w)) = sent (history w)
    \<and> length (invoked (history (run nullError es w))) + length (polls (run nullError es w))
        = length (invoked (history w)) + length (polls w)
    \<and> set (polls (run nullError es w)) \<subseteq> set (polls w)"
proof -
  have c0: "consistent (run nullError es0 (boot did))" by (rule consistent_reachable)
  have c: "consistent w" using assms(1) consistent_step [OF c0] by simp
  have i: "interval (trk w) = None" using assms(1) stop_fields [OF c0] by simp
  have c': "consistent (run nullError es w)" by (rule consistent_run [OF c])
  from idle_run [where nullError = nullError, OF c i assms(2)] idle_timers [OF c']
  show ?thesis by simp
qed

text \<open>
  An instance: start, stop, then the timer event and a failed query. The stale timer does
  nothing and the one query in flight delivers one callback.
\<close>

theorem after_stop_only_inflight_results_witness:
  "CallStart \<notin> set [TimerFires 1, PollSettles 0 (Rejected (Error ''Failed to fetch''))]
   \<and> timers (run V8_TypeError [TimerFires 1, PollSettles 0 (Rejected (Error ''Failed to fetch''))]
        (step V8_TypeError CallStop (run V8_TypeError [CallStart] (boot (Str ''d1''))))) = []
   \<and> length (invoked (history (run V8_TypeError [TimerFires 1, PollSettles 0 (Rejected (Error ''Failed to fetch''))]
        (step V8_TypeError CallStop (run V8_TypeError [CallStart] (boot (Str ''d1''))))))) = 1"
  using after_stop_only_inflight_results
    [where nullError = V8_TypeError and ?es0.0 = "[CallStart]" and did = "Str ''d1''"
       and es = "[TimerFires 1, PollSettles 0 (Rejected (Error ''Failed to fetch''))]", OF refl]
  by (simp add: eval_defs)

text \<open>
  C1 as stated fails: the tracker is started and stopped at once, no callback has been
  called when \<^verbatim>\<open>stop()\<close> returns, and the first query then settles with status
  \<open>completed\<close>: the success callback is called.
\<close>

theorem stop_does_not_silence_inflight_poll:
  "invoked (history (run V8_TypeError [CallStart, CallStop] (boot (Str ''d1'')))) = []
   \<and> invoked (history (run V8_TypeError [CallStart, CallStop,
         PollSettles 0 (Responded True (Parsed (JObj [(''status'', Str ''completed'')])))]
        (boot (Str ''d1''))))
     = [OnComplete [(''status'', Str ''completed'')]]"
  by (simp add: eval_defs)

text \<open>
  C3, as the code has it. A poll cycle that ends in the success or the failure callback
  calls it once and leaves the tracker stopped: timer cleared, \<open>isTracking\<close> false. From
  then on, as long as \<^verbatim>\<open>start()\<close> is not called again, no status query is sent. Further
  terminal callbacks can only come from queries that were in flight at that moment, at
  most one for each; when the settling query was the only one in flight, nothing at all
  happens afterwards.
\<close>

theorem terminal_outcome_stops_polling:
  assumes "w = run nullError es0 (boot did)" and "p \<in> set (polls w)" and "terminal_outcome nullError f"
    and "w1 = step nullError (PollSettles p f) w" and "CallStart \<notin> set es"
  shows "timers w1 = [] \<and> \<not> isTracking (trk w1)
    \<and> length (filter is_terminal (invoked (history w1)))
        = Suc (length (filter is_terminal (invoked (history w))))
    \<and> timers (run nullError es w1) = [] \<and> \<not> isTracking (trk (run nullError es w1))
    \<and> sent (history (run nullError es w1)) = sent (history w1)
    \<and> length (filter is_terminal (invoked (history (run nullError es w1))))
        \<le> length (filter is_terminal (invoked (history w1))) + length (polls w1)
    \<and> (polls w = [p] \<longrightarrow> history (run nullError es w1) = history w1)"
proof -
  have c: "consistent w" using assms(1) consistent_reachable by simp
  have c1: "consistent w1" using assms(4) consistent_step [OF c] by simp
  from settle_terminal_fields [OF c assms(2,3)] obtain cb where cb: "is_terminal cb"
    and t1: "trk w1 = (trk w)\<lparr>interval := None, isTracking := False\<rparr>"
    and p1: "polls w1 = removeAll p (polls w)"
    and h1: "history w1 = history w @ map ClearInterval (timers w)
        @ [Invoke cb ((trk w)\<lparr>interval := None, isTracking := False\<rparr>)]"
    unfolding assms(4) by blast
  have i1: "interval (trk w1) = None" using t1 by simp
  have c': "consistent (run nullError es w1)" by (rule consistent_run [OF c1])
  note r = idle_run [where nullError = nullError, OF c1 i1 assms(5)]
  have e: "polls w = [p] \<Longrightarrow> polls w1 = []" using p1 by simp
  from r idle_timers [OF c1 i1] idle_timers [OF c'] cb h1 e show ?thesis by auto
qed

text \<open>
  An instance: the only query in flight settles with status \<open>error\<close>; a late timer
  event and a call of \<^verbatim>\<open>stop()\<close> add nothing to the one failure callback.
\<close>

theorem terminal_outcome_stops_polling_witness:
  "0 \<in> set (polls (run V8_TypeError [CallStart] (boot (Str ''d1''))))
   \<and> terminal_outcome V8_TypeError (Responded True (Parsed (JObj [(''status'', Str ''error'')])))
   \<and> CallStart \<notin> set [TimerFires 1, CallStop]
   \<and> polls (run V8_TypeError [CallStart] (boot (Str ''d1''))) = [0]
   \<and> invoked (history (run V8_TypeError [TimerFires 1, CallStop]
        (step V8_TypeError (PollSettles 0 (Responded True (Parsed (JObj [(''status'', Str ''error'')]))))
          (run V8_TypeError [CallStart] (boot (Str ''d1''))))))
     = [OnError (Str ''Download failed'')]"
  using terminal_outcome_stops_polling
    [where nullError = V8_TypeError and ?es0.0 = "[CallStart]" and did = "Str ''d1''" and p = 0
       and f = "Responded True (Parsed (JObj [(''status'', Str ''error'')]))"
       and ?w1.0 = "step V8_TypeError
          (PollSettles 0 (Responded True (Parsed (JObj [(''status'', Str ''error'')]))))
          (run V8_TypeError [CallStart] (boot (Str ''d1'')))"
       and es = "[TimerFires 1, CallStop]", OF refl]
  by (simp add: eval_defs)

text \<open>
  C3 as stated fails: two queries are in flight, both settle with status \<open>completed\<close>,
  and the success callback is called twice.
\<close>

theorem two_terminal_callbacks:
  "filter is_terminal (invoked (history (run V8_TypeError [CallStart, TimerFires 1,
        PollSettles 0 (Responded True (Parsed (JObj [(''status'', Str ''completed'')]))),
        PollSettles 1 (Responded True (Parsed (JObj [(''status'', Str ''completed'')])))]
        (boot (Str ''d1'')))))
     = [OnComplete [(''status'', Str ''completed'')], OnComplete [(''status'', Str ''completed'')]]"
  by (simp add: eval_defs)

subsection \<open>The controller: one polling tracker\<close>

lemma app_ok_frame [simp]:
  "app_ok (a\<lparr>view := v\<rparr>) = app_ok a"
  "app_ok (a\<lparr>requests := r\<rparr>) = app_ok a"
  "app_ok (a\<lparr>infos := i\<rparr>) = app_ok a"
  "app_ok (a\<lparr>dispatches := d\<rparr>) = app_ok a"
  "app_ok (a\<lparr>next_call := n\<rparr>) = app_ok a"
  "app_ok (a\<lparr>next_query := n\<rparr>) = app_ok a"
  by (simp_all add: app_ok_def cong: option.case_cong)

lemma app_ok_state_frame:
  "progressTracker s = progressTracker (state a) \<Longrightarrow> app_ok (a\<lparr>state := s\<rparr>) = app_ok a"
  by (simp add: app_ok_def cong: option.case_cong)

lemma app_ok_init: "app_ok app_init"
  by (simp add: app_ok_def app_init_def)

lemma callback_body_frame:
  "state (callback_body base c a) = state a"
  "heap (callback_body base c a) = heap a"
  "intervals (callback_body base c a) = intervals a"
  "queries (callback_body base c a) = queries a"
  "next_handle (callback_body base c a) = next_handle a"
  by (cases c; simp)+

lemma app_ok_callback_body: "app_ok (callback_body base c a) = app_ok a"
  by (cases c) simp_all

text \<open>The methods of a tracker, seen from the page.\<close>

lemma on_tracker_stop:
  assumes ok: "app_ok a" and addr: "addr < length (heap a)"
  shows "app_ok (on_tracker base addr stop a)
    \<and> state (on_tracker base addr stop a) = state a
    \<and> length (heap (on_tracker base addr stop a)) = length (heap a)
    \<and> interval (heap (on_tracker base addr stop a) ! addr) = None
    \<and> (progressTracker (state a) = Some addr \<longrightarrow> intervals (on_tracker base addr stop a) = [])
    \<and> next_handle (on_tracker base addr stop a) = next_handle a"
proof (cases "interval (heap a ! addr)")
  case None
  then have st: "stop (heap a ! addr) = ((heap a ! addr)\<lparr>isTracking := False\<rparr>, [])"
    by (simp add: stop_def)
  have eq: "on_tracker base addr stop a = a\<lparr>heap := (heap a)[addr := (heap a ! addr)\<lparr>isTracking := False\<rparr>]\<rparr>"
    using addr by (simp add: on_tracker_def st)
  show ?thesis unfolding eq using ok addr None
    by (auto simp: app_ok_def nth_list_update split: option.splits)
next
  case (Some h)
  with ok addr have h0: "h \<noteq> 0" and cur: "progressTracker (state a) = Some addr"
    and iv: "intervals a = [(h, addr)]"
    by (auto simp: app_ok_def split: option.splits)
  from Some h0 have st: "stop (heap a ! addr)
      = ((heap a ! addr)\<lparr>interval := None, isTracking := False\<rparr>, [ClearInterval h])"
    by (simp add: stop_def)
  have eq: "on_tracker base addr stop a
      = a\<lparr>heap := (heap a)[addr := (heap a ! addr)\<lparr>interval := None, isTracking := False\<rparr>],
          intervals := []\<rparr>"
    using addr iv by (simp add: on_tracker_def st)
  show ?thesis unfolding eq using ok addr cur
    by (auto simp: app_ok_def nth_list_update split: option.splits)
qed

lemma on_tracker_invoke_last:
  assumes "addr < length (heap a)" and "meth (heap a ! addr) = (t', acts @ [Invoke c t''])"
    and "meth' (heap a ! addr) = (t', acts)"
  shows "on_tracker base addr meth a = callback_body base c (on_tracker base addr meth' a)"
  using assms by (simp add: on_tracker_def)

lemma on_tracker_settled:
  assumes ok: "app_ok a" and addr: "addr < length (heap a)"
  shows "app_ok (on_tracker base addr (checkProgress_settled nullError f) a)"
proof (cases "terminal_outcome nullError f")
  case True
  from settled_terminal [OF True, of "heap a ! addr"] obtain c where
    "checkProgress_settled nullError f (heap a ! addr)
       = (fst (stop (heap a ! addr)), snd (stop (heap a ! addr)) @ [Invoke c (fst (stop (heap a ! addr)))])"
    by blast
  from on_tracker_invoke_last
    [where meth = "checkProgress_settled nullError f" and meth' = stop and base = base, OF addr this]
  have "on_tracker base addr (checkProgress_settled nullError f) a
      = callback_body base c (on_tracker base addr stop a)" by simp
  then show ?thesis using on_tracker_stop [OF ok addr] by (simp add: app_ok_callback_body)
next
  case False
  from settled_progress [OF False, of "heap a ! addr"] obtain r where
    "checkProgress_settled nullError f (heap a ! addr) = (heap a ! addr, [Invoke (OnUpdate r) (heap a ! addr)])"
    by blast
  then have "on_tracker base addr (checkProgress_settled nullError f) a = a"
    using addr by (simp add: on_tracker_def)
  then show ?thesis using ok by simp
qed

lemma on_tracker_fire:
  assumes ok: "app_ok a" and addr: "addr < length (heap a)"
  shows "app_ok (on_tracker base addr (\<lambda>t. (t, checkProgress t)) a)"
proof -
  have "on_tracker base addr (\<lambda>t. (t, checkProgress t)) a
      = a\<lparr>queries := queries a @ [(next_query a, addr)], next_query := Suc (next_query a),
          requests := requests a @ [getProgress_request base (downloadId (heap a ! addr))]\<rparr>"
    using addr by (simp add: on_tracker_def checkProgress_def)
  then show ?thesis using ok addr by (simp add: app_ok_def cong: option.case_cong)
qed

lemma trackProgress_fields:
  assumes ok: "app_ok a"
  shows "app_ok (trackProgress base a)
    \<and> length (heap (trackProgress base a)) = Suc (length (heap a))
    \<and> progressTracker (state (trackProgress base a)) = Some (length (heap a))
    \<and> isTracking (heap (trackProgress base a) ! length (heap a))
    \<and> intervals (trackProgress base a) = [(next_handle a, length (heap a))]
    \<and> (\<forall>i < length (heap a). \<not> isTracking (heap (trackProgress base a) ! i))"
proof -
  define a1 where "a1 = (case progressTracker (state a) of
                  Some old \<Rightarrow> on_tracker base old stop a
                | None \<Rightarrow> a)"
  have a1: "app_ok a1 \<and> length (heap a1) = length (heap a) \<and> intervals a1 = []
      \<and> next_handle a1 = next_handle a
      \<and> (\<forall>i < length (heap a1). interval (heap a1 ! i) = None)"
  proof (cases "progressTracker (state a)")
    case None
    then show ?thesis using ok by (simp add: a1_def app_ok_def)
  next
    case (Some old)
    with ok have old: "old < length (heap a)" by (simp add: app_ok_def)
    from on_tracker_stop [OF ok old, of base] Some
    have s: "app_ok a1" "state a1 = state a" "length (heap a1) = length (heap a)"
      "interval (heap a1 ! old) = None" "intervals a1 = []" "next_handle a1 = next_handle a"
      by (simp_all add: a1_def)
    have "interval (heap a1 ! i) = None" if "i < length (heap a1)" for i
    proof (cases "i = old")
      case True
      then show ?thesis using s(4) by simp
    next
      case False
      then show ?thesis using s(1,2) Some that by (simp add: app_ok_def)
    qed
    then show ?thesis using s by simp
  qed
  define a2 where "a2 = a1\<lparr>heap := heap a1 @ [new_ProgressTracker (currentDownloadId (state a1))],
                  state := (state a1)\<lparr>progressTracker := Some (length (heap a1))\<rparr>\<rparr>"
  have tp: "trackProgress base a = on_tracker base (length (heap a1)) (start (next_handle a2)) a2"
    by (simp add: trackProgress_def a1_def a2_def Let_def)
  have eq: "on_tracker base (length (heap a1)) (start (next_handle a2)) a2
      = a1\<lparr>heap := heap a1 @ [\<lparr>downloadId = currentDownloadId (state a1),
                                 interval = Some (next_handle a1), isTracking = True\<rparr>],
           state := (state a1)\<lparr>progressTracker := Some (length (heap a1))\<rparr>,
           queries := queries a1 @ [(next_query a1, length (heap a1))],
           next_query := Suc (next_query a1),
           requests := requests a1 @ [getProgress_request base (currentDownloadId (state a1))],
           intervals := intervals a1 @ [(next_handle a1, length (heap a1))],
           next_handle := Suc (next_handle a1)\<rparr>"
    by (simp add: on_tracker_def a2_def start_def new_ProgressTracker_def checkProgress_def)
  have q: "list_all (\<lambda>x. snd x < Suc (length (heap a1))) (queries a1)"
    using a1 by (auto simp: app_ok_def list_all_iff less_Suc_eq)
  have h: "next_handle a1 \<noteq> 0" using a1 by (simp add: app_ok_def)
  show ?thesis unfolding tp eq using a1 q h
    by (auto simp: app_ok_def nth_append)
qed

lemma app_ok_step:
  assumes ok: "app_ok a"
  shows "app_ok (app_step new_URL nullError base e a)"
proof (cases e)
  case (InputUrl s)
  then show ?thesis using ok by simp
next
  case ClickFetchInfo
  then show ?thesis using ok
    by (auto simp: fetchVideoInfo_def Let_def app_ok_state_frame split: sum.splits bool.splits)
next
  case (InfoSettles k f)
  then show ?thesis using ok
    by (auto simp: fetchVideoInfo_settled_def Let_def app_ok_state_frame
        split: sum.splits json.splits)
next
  case (ChooseType t)
  then show ?thesis using ok by (simp add: app_ok_state_frame)
next
  case (ChooseQuality q)
  then show ?thesis using ok by (simp add: app_ok_state_frame)
next
  case ClickDownload
  then show ?thesis using ok by (simp add: startDownload_def)
next
  case (DispatchSettles k f)
  have "app_ok (startDownload_settled nullError base f a')" if a': "app_ok a'" for a'
  proof (cases "API_post nullError f")
    case (Inl e)
    then show ?thesis using a' by (simp add: startDownload_settled_def Let_def)
  next
    case (Inr j)
    show ?thesis
    proof (cases j)
      case JNull
      then show ?thesis using a' Inr by (simp add: startDownload_settled_def Let_def)
    next
      case (JObj r)
      have "app_ok (a'\<lparr>state := (state a')\<lparr>currentDownloadId := getprop r ''download_id''\<rparr>,
                  view := showToast ''Download started!'' (showProgress (view a'))\<rparr>)"
        using a' by (simp add: app_ok_state_frame)
      from trackProgress_fields [OF this, of base] show ?thesis
        using Inr JObj by (simp add: startDownload_settled_def Let_def)
    qed
  qed
  then show ?thesis using ok DispatchSettles by simp
next
  case ClickNewDownload
  then show ?thesis using ok by simp
next
  case ClickRetry
  then show ?thesis using ok by (simp split: json.splits)
next
  case (IntervalFires h)
  show ?thesis
  proof (cases "map_of (intervals a) h")
    case None
    then show ?thesis using ok IntervalFires by simp
  next
    case (Some addr)
    then have "(h, addr) \<in> set (intervals a)" by (rule map_of_SomeD)
    with ok have "addr < length (heap a)"
      by (auto simp: app_ok_def split: option.splits)
    from on_tracker_fire [OF ok this] show ?thesis using Some IntervalFires by simp
  qed
next
  case (QuerySettles q f)
  show ?thesis
  proof (cases "map_of (queries a) q")
    case None
    then show ?thesis using ok QuerySettles by simp
  next
    case (Some addr)
    then have "(q, addr) \<in> set (queries a)" by (rule map_of_SomeD)
    with ok have addr: "addr < length (heap a)"
      by (auto simp: app_ok_def list_all_iff)
    have ok': "app_ok (a\<lparr>queries := filter (\<lambda>x. fst x \<noteq> q) (queries a)\<rparr>)"
      using ok by (auto simp: app_ok_def list_all_iff cong: option.case_cong)
    from on_tracker_settled
      [where nullError = nullError and base = base and f = f, OF ok', of addr] addr
    show ?thesis
      using Some QuerySettles by simp
  qed
qed

lemma app_ok_run: "app_ok a \<Longrightarrow> app_ok (app_run new_URL nullError base es a)"
  unfolding app_run_def by (induction es arbitrary: a) (simp_all add: app_ok_step)

lemma app_ok_reachable: "app_ok (app_run new_URL nullError base es app_init)"
  by (simp add: app_ok_run app_ok_init)

text \<open>
  C4, as the code has it. In every page reachable from the initial one: at most one
  interval timer is live and at most one tracker is tracking; a live timer belongs to the
  tracker the controller currently holds. \<^verbatim>\<open>trackProgress\<close> stops the tracker held so
  far before it builds and starts the new one, so afterwards none of the old trackers is
  tracking and the one timer is the new tracker's. The handler of the new-download button
  resets the view only: the trackers, the timers, the queries in flight and the
  controller's state are as before.
\<close>

theorem single_polling_tracker:
  assumes "a = app_run new_URL nullError base es app_init"
  shows "length (intervals a) \<le> 1
    \<and> (\<forall>i j. i < length (heap a) \<and> j < length (heap a)
          \<and> isTracking (heap a ! i) \<and> isTracking (heap a ! j) \<longrightarrow> i = j)
    \<and> (\<forall>h addr. (h, addr) \<in> set (intervals a) \<longrightarrow>
          progressTracker (state a) = Some addr \<and> addr < length (heap a)
          \<and> interval (heap a ! addr) = Some h \<and> isTracking (heap a ! addr))
    \<and> (\<forall>i < length (heap a). \<not> isTracking (heap (trackProgress base a) ! i))
    \<and> length (heap (trackProgress base a)) = Suc (length (heap a))
    \<and> progressTracker (state (trackProgress base a)) = Some (length (heap a))
    \<and> isTracking (heap (trackProgress base a) ! length (heap a))
    \<and> intervals (trackProgress base a) = [(next_handle a, length (heap a))]
    \<and> heap (app_step new_URL nullError base ClickNewDownload a) = heap a
    \<and> intervals (app_step new_URL nullError base ClickNewDownload a) = intervals a
    \<and> queries (app_step new_URL nullError base ClickNewDownload a) = queries a
    \<and> state (app_step new_URL nullError base ClickNewDownload a) = state a"
proof -
  have ok: "app_ok a" using assms app_ok_reachable by simp
  have one: "length (intervals a) \<le> 1"
    using ok by (auto simp: app_ok_def split: option.splits)
  have cur: "progressTracker (state a) = Some i" if "i < length (heap a)" "isTracking (heap a ! i)" for i
    using ok that by (auto simp: app_ok_def)
  have "i = j" if "i < length (heap a)" "j < length (heap a)"
      "isTracking (heap a ! i)" "isTracking (heap a ! j)" for i j
    using cur [OF that(1,3)] cur [OF that(2,4)] by simp
  then have uniq: "\<forall>i j. i < length (heap a) \<and> j < length (heap a)
          \<and> isTracking (heap a ! i) \<and> isTracking (heap a ! j) \<longrightarrow> i = j"
    by blast
  have own: "\<forall>h addr. (h, addr) \<in> set (intervals a) \<longrightarrow>
          progressTracker (state a) = Some addr \<and> addr < length (heap a)
          \<and> interval (heap a ! addr) = Some h \<and> isTracking (heap a ! addr)"
    using ok by (auto simp: app_ok_def split: option.splits)
  from one uniq own trackProgress_fields [OF ok, of base] show ?thesis by simp
qed

text \<open>
  An instance: after the session \<open>one_download\<close> the first tracker is polling with timer
  1; a call of \<^verbatim>\<open>trackProgress\<close> then stops it and starts a second tracker with timer 2.
\<close>

theorem single_polling_tracker_witness:
  "(1, 0) \<in> set (intervals (app_run Inr V8_TypeError ''http://localhost:5000'' one_download app_init))
   \<and> progressTracker (state (app_run Inr V8_TypeError ''http://localhost:5000'' one_download app_init)) = Some 0
   \<and> 0 < length (heap (app_run Inr V8_TypeError ''http://localhost:5000'' one_download app_init))
   \<and> isTracking (heap (app_run Inr V8_TypeError ''http://localhost:5000'' one_download app_init) ! 0)
   \<and> \<not> isTracking (heap (trackProgress ''http://localhost:5000''
          (app_run Inr V8_TypeError ''http://localhost:5000'' one_download app_init)) ! 0)
   \<and> intervals (trackProgress ''http://localhost:5000''
          (app_run Inr V8_TypeError ''http://localhost:5000'' one_download app_init)) = [(2, 1)]"
proof -
  have i: "intervals (app_run Inr V8_TypeError ''http://localhost:5000'' one_download app_init) = [(1, 0)]"
    by code_simp
  have l: "length (heap (app_run Inr V8_TypeError ''http://localhost:5000'' one_download app_init)) = 1"
    by code_simp
  have n: "next_handle (app_run Inr V8_TypeError ''http://localhost:5000'' one_download app_init) = 2"
    by code_simp
  note th = single_polling_tracker
      [where new_URL = Inr and base = "''http://localhost:5000''" and es = one_download, OF refl]
  from th i have own: "progressTracker (state (app_run Inr V8_TypeError ''http://localhost:5000'' one_download app_init)) = Some 0
    \<and> isTracking (heap (app_run Inr V8_TypeError ''http://localhost:5000'' one_download app_init) ! 0)"
    by (simp del: app_step.simps)
  from th l have old: "\<not> isTracking (heap (trackProgress ''http://localhost:5000''
          (app_run Inr V8_TypeError ''http://localhost:5000'' one_download app_init)) ! 0)"
    by (simp del: app_step.simps)
  from th l n have new: "intervals (trackProgress ''http://localhost:5000''
          (app_run Inr V8_TypeError ''http://localhost:5000'' one_download app_init)) = [(2, 1)]"
    by (simp del: app_step.simps)
  from own old new i l show ?thesis by (simp del: app_step.simps)
qed

text \<open>
  C4 as stated fails. After the session \<open>two_downloads\<close> the success section is shown
  (for the first download) while the second tracker is polling; the new-download button
  then resets the view and the second tracker keeps its timer and goes on polling.
\<close>

theorem new_download_leaves_tracker_polling:
  "shown (view (app_run Inr V8_TypeError ''http://localhost:5000'' two_downloads app_init)) = Some SuccessSection
   \<and> intervals (app_step Inr V8_TypeError ''http://localhost:5000'' ClickNewDownload
        (app_run Inr V8_TypeError ''http://localhost:5000'' two_downloads app_init)) = [(2, 1)]
   \<and> isTracking (heap (app_step Inr V8_TypeError ''http://localhost:5000'' ClickNewDownload
        (app_run Inr V8_TypeError ''http://localhost:5000'' two_downloads app_init)) ! 1)"
  by code_simp

subsection \<open>The controller: local validation\<close>

text \<open>
  C8. When the trimmed text of the URL field is empty, or the URL parser rejects it, or
  it is longer than \<open>MAX_URL_LENGTH\<close>, \<^verbatim>\<open>fetchVideoInfo\<close> shows one toast and returns:
  no request is handed to \<^verbatim>\<open>fetch\<close>, no call is left pending and the controller's
  state is unchanged.
\<close>

theorem invalid_url_makes_no_request:
  assumes "url = trim (urlInput (view a))"
    and "url = [] \<or> (\<forall>u. new_URL url \<noteq> Inr u) \<or> MAX_URL_LENGTH < length url"
  shows "\<exists>notice. app_step new_URL nullError base ClickFetchInfo a = a\<lparr>view := showToast notice (view a)\<rparr>
     \<and> toasts (view (app_step new_URL nullError base ClickFetchInfo a)) = toasts (view a) @ [notice]
     \<and> requests (app_step new_URL nullError base ClickFetchInfo a) = requests a
     \<and> infos (app_step new_URL nullError base ClickFetchInfo a) = infos a
     \<and> state (app_step new_URL nullError base ClickFetchInfo a) = state a"
proof (cases "url = []")
  case True
  then show ?thesis using assms(1)
    by (intro exI [of _ "''Please enter a URL''"]) (simp add: fetchVideoInfo_def showToast_def)
next
  case False
  with assms(2) have "isValidUrl new_URL url = Inr False"
    by (cases "new_URL url") (auto simp: isValidUrl_def)
  then show ?thesis using False assms(1)
    by (intro exI [of _ "''Please enter a valid URL''"])
       (simp add: fetchVideoInfo_def showToast_def Let_def)
qed

text \<open>
  Two instances: a URL field that holds blanks only, and a text that the URL parser
  rejects (here a parser that rejects everything).
\<close>

theorem invalid_url_makes_no_request_witness:
  "trim (urlInput (view (app_step Inr V8_TypeError ''http://localhost:5000'' (InputUrl ''   '') app_init))) = []
   \<and> requests (app_step Inr V8_TypeError ''http://localhost:5000'' ClickFetchInfo
        (app_step Inr V8_TypeError ''http://localhost:5000'' (InputUrl ''   '') app_init)) = []
   \<and> toasts (view (app_step Inr V8_TypeError ''http://localhost:5000'' ClickFetchInfo
        (app_step Inr V8_TypeError ''http://localhost:5000'' (InputUrl ''   '') app_init)))
       = [''Please enter a URL'']
   \<and> trim (urlInput (view (app_step (Inl \<circ> Error) V8_TypeError ''http://localhost:5000''
        (InputUrl '' not a url'') app_init))) = ''not a url''
   \<and> requests (app_step (Inl \<circ> Error) V8_TypeError ''http://localhost:5000'' ClickFetchInfo
        (app_step (Inl \<circ> Error) V8_TypeError ''http://localhost:5000'' (InputUrl '' not a url'') app_init)) = []
   \<and> toasts (view (app_step (Inl \<circ> Error) V8_TypeError ''http://localhost:5000'' ClickFetchInfo
        (app_step (Inl \<circ> Error) V8_TypeError ''http://localhost:5000'' (InputUrl '' not a url'') app_init)))
       = [''Please enter a valid URL'']"
proof -
  have t: "trim (urlInput (view (app_step Inr V8_TypeError ''http://localhost:5000'' (InputUrl ''   '') app_init))) = []"
    by code_simp
  have r: "requests (app_step Inr V8_TypeError ''http://localhost:5000'' (InputUrl ''   '') app_init) = []"
    by code_simp
  have n: "toasts (view (app_step Inr V8_TypeError ''http://localhost:5000'' ClickFetchInfo
        (app_step Inr V8_TypeError ''http://localhost:5000'' (InputUrl ''   '') app_init)))
       = [''Please enter a URL'']"
    by code_simp
  have h: "[] = trim (urlInput (view (app_step Inr V8_TypeError ''http://localhost:5000'' (InputUrl ''   '') app_init)))"
    using t by (simp del: app_step.simps)
  from invalid_url_makes_no_request
    [where new_URL = Inr and base = "''http://localhost:5000''", OF h disjI1 [OF refl]]
  have e: "requests (app_step Inr V8_TypeError ''http://localhost:5000'' ClickFetchInfo
        (app_step Inr V8_TypeError ''http://localhost:5000'' (InputUrl ''   '') app_init))
      = requests (app_step Inr V8_TypeError ''http://localhost:5000'' (InputUrl ''   '') app_init)"
    by blast
  have t': "trim (urlInput (view (app_step (Inl \<circ> Error) V8_TypeError ''http://localhost:5000''
        (InputUrl '' not a url'') app_init))) = ''not a url''"
    by code_simp
  have r': "requests (app_step (Inl \<circ> Error) V8_TypeError ''http://localhost:5000'' ClickFetchInfo
        (app_step (Inl \<circ> Error) V8_TypeError ''http://localhost:5000'' (InputUrl '' not a url'') app_init)) = []"
    by code_simp
  have n': "toasts (view (app_step (Inl \<circ> Error) V8_TypeError ''http://localhost:5000'' ClickFetchInfo
        (app_step (Inl \<circ> Error) V8_TypeError ''http://localhost:5000'' (InputUrl '' not a url'') app_init)))
       = [''Please enter a valid URL'']"
    by code_simp
  from t r n e t' r' n' show ?thesis by (simp del: app_step.simps)
qed

end
